theory Spec2Isabelle
  imports Complex_Main "HOL-Library.Sublist"
begin

section \<open>JavaScript primitives used by the dashboard logic\<close>

text \<open>
  Strings are byte strings (UTF-8); the whitespace recognised by \<open>trim\<close> and
  \<open>parseInt\<close> is the ASCII part of JavaScript's whitespace (TAB, LF, VT, FF, CR,
  SP). A JavaScript number that the logic computes with is an integer or NaN.
\<close>

datatype jsnum = Num int | NaN

definition is_ws :: "char \<Rightarrow> bool" where
  "is_ws c = (c \<in> set [CHR 0x09, CHR 0x0A, CHR 0x0B, CHR 0x0C, CHR 0x0D, CHR 0x20])"

definition is_digit :: "char \<Rightarrow> bool" where
  "is_digit c = (48 \<le> (of_char c :: nat) \<and> (of_char c :: nat) \<le> 57)"

definition digit_val :: "char \<Rightarrow> int" where
  "digit_val c = int (of_char c) - 48"

text \<open>The value of a run of decimal digits, most significant first.\<close>

fun digits_value :: "int \<Rightarrow> string \<Rightarrow> int" where
  "digits_value acc [] = acc"
| "digits_value acc (c # cs) = digits_value (10 * acc + digit_val c) cs"

text \<open>\<^verbatim>\<open>String.prototype.trim\<close>.\<close>

definition trim_js :: "string \<Rightarrow> string" where
  "trim_js s = rev (dropWhile is_ws (rev (dropWhile is_ws s)))"

text \<open>\<^verbatim>\<open>s.split(sep)\<close> for a one-character separator: never the empty list.\<close>

fun split_js :: "char \<Rightarrow> string \<Rightarrow> string list" where
  "split_js sep [] = [[]]"
| "split_js sep (c # cs) =
     (if c = sep then [] # split_js sep cs
      else (case split_js sep cs of
              [] \<Rightarrow> [[c]]
            | p # ps \<Rightarrow> (c # p) # ps))"

text \<open>
  \<^verbatim>\<open>Number(s)\<close> on the strings a time field holds: surrounding whitespace is
  dropped, the empty string is 0, a run of decimal digits is its value, and text that is
  not a number is NaN. Signed, fractional, exponent and prefixed (0x, 0o, 0b) literals are
  outside this fragment and are read as NaN here.
\<close>

definition Number_js :: "string \<Rightarrow> jsnum" where
  "Number_js s =
     (let t = trim_js s in
      if t = [] then Num 0
      else if list_all is_digit t then Num (digits_value 0 t)
      else NaN)"

fun js_add :: "jsnum \<Rightarrow> jsnum \<Rightarrow> jsnum" where
  "js_add (Num a) (Num b) = Num (a + b)"
| "js_add _ _ = NaN"

fun js_mul :: "jsnum \<Rightarrow> jsnum \<Rightarrow> jsnum" where
  "js_mul (Num a) (Num b) = Num (a * b)"
| "js_mul _ _ = NaN"

text \<open>Relational operators: every comparison with NaN is false.\<close>

fun js_lt :: "jsnum \<Rightarrow> jsnum \<Rightarrow> bool" where
  "js_lt (Num a) (Num b) = (a < b)"
| "js_lt _ _ = False"

fun js_gt :: "jsnum \<Rightarrow> jsnum \<Rightarrow> bool" where
  "js_gt (Num a) (Num b) = (a > b)"
| "js_gt _ _ = False"

fun js_ge :: "jsnum \<Rightarrow> jsnum \<Rightarrow> bool" where
  "js_ge (Num a) (Num b) = (a \<ge> b)"
| "js_ge _ _ = False"

text \<open>
  \<^verbatim>\<open>parseInt(s, 10)\<close>: leading whitespace is skipped, one sign is accepted, then the
  longest run of decimal digits is read; no digit gives NaN. The value is kept exact: the
  callers clamp it to at most 1440, and a double that rounds a longer run of digits is on
  the same side of every bound as the exact value.
\<close>

definition parseInt10 :: "string \<Rightarrow> jsnum" where
  "parseInt10 s =
     (let s1 = dropWhile is_ws s;
          neg = (case s1 of [] \<Rightarrow> False | c # _ \<Rightarrow> c = CHR ''-'');
          s2 = (case s1 of [] \<Rightarrow> []
                | c # cs \<Rightarrow> if c = CHR ''-'' \<or> c = CHR ''+'' then cs else s1);
          z = takeWhile is_digit s2
      in if z = [] then NaN
         else Num ((if neg then - 1 else 1) * digits_value 0 z))"

text \<open>\<^verbatim>\<open>x || d\<close> for a number \<open>x\<close>: NaN and 0 are falsy.\<close>

fun js_or :: "jsnum \<Rightarrow> int \<Rightarrow> int" where
  "js_or NaN d = d"
| "js_or (Num n) d = (if n = 0 then d else n)"

section \<open>Time/Range Evaluator\<close>

text \<open>
  \<^verbatim>\<open>hhmmToMinutes\<close>: \<^verbatim>\<open>const [h, m] = hhmm.trim().split(":").map(Number);
  return (h ?? 0) * 60 + (m ?? 0)\<close>. A missing second part is \<open>undefined\<close>, hence 0.
\<close>

definition hhmmToMinutes :: "string \<Rightarrow> jsnum" where
  "hhmmToMinutes hhmm =
     (let parts = map Number_js (split_js (CHR '':'') (trim_js hhmm));
          h = (case parts of [] \<Rightarrow> Num 0 | x # _ \<Rightarrow> x);
          m = (case parts of _ # y # _ \<Rightarrow> y | _ \<Rightarrow> Num 0)
      in js_add (js_mul h (Num 60)) m)"

text \<open>\<^verbatim>\<open>isTimeInRange\<close>; \<open>None\<close> is \<open>null\<close>.\<close>

definition isTimeInRange :: "string \<Rightarrow> string \<Rightarrow> string option \<Rightarrow> bool" where
  "isTimeInRange now start end =
     (case end of
        None \<Rightarrow> now = start
      | Some e \<Rightarrow>
          if e = [] then now = start
          else
            (let nowM = hhmmToMinutes now;
                 startM = hhmmToMinutes start;
                 endM = hhmmToMinutes e
             in if js_gt endM startM then js_ge nowM startM \<and> js_lt nowM endM
                else js_ge nowM startM \<or> js_lt nowM endM))"

text \<open>
  \<^verbatim>\<open>ScheduleRule\<close>: a light rule or a pump rule. Optional fields are options
  (\<open>None\<close> is \<open>undefined\<close> or \<open>null\<close>). Numbers that arrive as JSON are
  rationals: every finite double is one.
\<close>

datatype ScheduleRule =
    LightRule (rule_id: string) (enabled: "bool option") (paused: "bool option")
      (start_time: string) (end_time: "string option") (brightness_pct: "rat option")
  | PumpRule (rule_id: string) (enabled: "bool option") (paused: "bool option")
      (time: string) (duration_minutes: int)

text \<open>
  The loop of \<^verbatim>\<open>getEffectiveLightBrightnessFromRules\<close>, with \<open>maxBrightness\<close> as
  the accumulator. The clock reading \<open>now\<close> is a parameter.
\<close>

fun brightness_loop :: "string \<Rightarrow> ScheduleRule list \<Rightarrow> rat option \<Rightarrow> rat option" where
  "brightness_loop now [] maxBrightness = maxBrightness"
| "brightness_loop now (PumpRule i en pa t d # rs) maxBrightness =
     brightness_loop now rs maxBrightness"
| "brightness_loop now (LightRule i en pa st e bp # rs) maxBrightness =
     (if en = Some False \<or> pa = Some True then brightness_loop now rs maxBrightness
      else if isTimeInRange now st e then
        (let b = (case bp of None \<Rightarrow> 0 | Some v \<Rightarrow> v)
         in brightness_loop now rs
              (Some (case maxBrightness of None \<Rightarrow> b | Some m \<Rightarrow> max m b)))
      else brightness_loop now rs maxBrightness)"

definition getEffectiveLightBrightnessFromRules :: "string \<Rightarrow> ScheduleRule list \<Rightarrow> rat option" where
  "getEffectiveLightBrightnessFromRules now rules = brightness_loop now rules None"

subsection \<open>The specification's reading of times and of matching rules\<close>

text \<open>A well-formed \<open>HH:MM\<close> time: two digits, a colon, two digits.\<close>

fun is_hhmm :: "string \<Rightarrow> bool" where
  "is_hhmm [a, b, c, d, e] =
     (is_digit a \<and> is_digit b \<and> c = CHR '':'' \<and> is_digit d \<and> is_digit e)"
| "is_hhmm _ = False"

text \<open>Its minutes since midnight, read off the five characters.\<close>

fun minutes_of :: "string \<Rightarrow> int" where
  "minutes_of [a, b, c, d, e] =
     (10 * digit_val a + digit_val b) * 60 + (10 * digit_val d + digit_val e)"
| "minutes_of _ = 0"

text \<open>
  A rule counts for the effective brightness when it is a light rule, not disabled,
  not paused, and its range holds the current time.
\<close>

fun rule_matches :: "string \<Rightarrow> ScheduleRule \<Rightarrow> bool" where
  "rule_matches now (LightRule i en pa st e bp) =
     (en \<noteq> Some False \<and> pa \<noteq> Some True \<and> isTimeInRange now st e)"
| "rule_matches now (PumpRule i en pa t d) = False"

fun rule_brightness :: "ScheduleRule \<Rightarrow> rat" where
  "rule_brightness (LightRule i en pa st e bp) = (case bp of None \<Rightarrow> 0 | Some v \<Rightarrow> v)"
| "rule_brightness (PumpRule i en pa t d) = 0"

section \<open>Override durations\<close>

text \<open>
  \<^verbatim>\<open>Math.max(1, Math.min(1440, parseInt(lightOverrideModal.minutes, 10) || 60))\<close> and
  \<^verbatim>\<open>Math.max(1, Math.min(120, parseInt(pumpManualModal.minutes, 10) || 5))\<close>.
\<close>

definition light_override_minutes :: "string \<Rightarrow> int" where
  "light_override_minutes s = max 1 (min 1440 (js_or (parseInt10 s) 60))"

definition pump_manual_minutes :: "string \<Rightarrow> int" where
  "pump_manual_minutes s = max 1 (min 120 (js_or (parseInt10 s) 5))"

section \<open>The remote device as seen by the client\<close>

text \<open>The requests of \<^verbatim>\<open>api\<close> that the control logic issues.\<close>

datatype api_call =
    GetDistance | GetHumidity | GetTemperature | GetPcbTemp | GetLightBrightness
  | GetPumpSpeed | GetPumpStats
  | LightOn | LightOff | SetLightBrightness rat
  | SetPumpSpeed rat | PumpOn | PumpOff
  | GetRules
  | PauseLightRulesForMinutes int | PausePumpRulesForMinutes int
  | SetManualPumpOffInMinutes int
  | ResumeLightRules | ResumePumpRules

text \<open>What a rejected promise carries: an \<^verbatim>\<open>Error\<close> with its message, or another value.\<close>

datatype thrown = ErrorObj string | OtherThrown

record PumpStats =
  speed :: "rat option"
  power :: "rat option"

record rules_response =
  resp_rules :: "ScheduleRule list option"
  light_rules_paused_until :: "string option"
  pump_rules_paused_until :: "string option"

text \<open>
  The environment of one run of a handler. A request is answered according to its
  position \<open>n\<close> in the sequence of requests issued so far and to the request itself, so
  the device may answer every request differently. \<open>command_result\<close>: \<open>None\<close> is a
  resolved promise. \<open>reading_result\<close> is the field the client reads from the answer
  (after \<^verbatim>\<open>num\<close> for the readings sent as text). The clock readings are indexed the
  same way; \<open>date_parse\<close> is \<^verbatim>\<open>new Date(s).getTime()\<close>, \<open>None\<close> for an invalid date.
\<close>

record world =
  command_result :: "nat \<Rightarrow> api_call \<Rightarrow> thrown option"
  reading_result :: "nat \<Rightarrow> api_call \<Rightarrow> thrown + rat option"
  stats_result :: "nat \<Rightarrow> thrown + PumpStats option"
  rules_result :: "nat \<Rightarrow> thrown + rules_response"
  central_hhmm :: "nat \<Rightarrow> string"
  epoch_ms :: "nat \<Rightarrow> int"
  date_parse :: "string \<Rightarrow> int option"

section \<open>Client state\<close>

record SensorState =
  distance :: "rat option"
  humidity :: "rat option"
  temperature :: "rat option"
  pcbTemp :: "rat option"
  lightBrightness :: "rat option"
  pumpSpeed :: "rat option"
  pumpStats :: "PumpStats option"

datatype on_off = On | Off

datatype actuator = Light | Pump

record light_override_modal =
  lo_open :: bool
  lo_action :: on_off
  lo_minutes :: string

record pump_manual_modal =
  pm_open :: bool
  pm_minutes :: string

record resume_modal =
  rm_open :: bool
  rm_type :: actuator
  rm_pausedUntil :: string

text \<open>
  The five manual actions the controls hand to the Resume Gate. Each is a closure of the
  render in which the control was used: \<^verbatim>\<open>handleLightOn\<close> and \<^verbatim>\<open>handleLightOff\<close> hold
  that render's \<open>rules\<close>, \<^verbatim>\<open>handlePumpOn\<close> its \<open>state.pumpSpeed\<close>.
\<close>

datatype manual_action =
    HandleLightOn "ScheduleRule list"
  | HandleLightOff "ScheduleRule list"
  | HandleLightBrightness rat
  | HandlePumpOn "rat option"
  | HandlePumpOff

text \<open>
  The state hooks of \<^verbatim>\<open>App\<close> that the control logic reads or writes, the mutable cell
  \<open>pendingResumeActionRef\<close>, and \<open>trace\<close>: the requests issued so far, oldest first.
\<close>

record app_state =
  error :: "string option"
  loading :: bool
  lastUpdate :: "int option"
  sensorState :: SensorState
  lightBrightnessSlider :: rat
  rules :: "ScheduleRule list"
  rulesError :: "string option"
  rulesLoading :: bool
  lightOverrideModal :: light_override_modal
  pumpManualModal :: pump_manual_modal
  lightRulesPausedUntil :: "string option"
  pumpRulesPausedUntil :: "string option"
  resumeModal :: resume_modal
  pendingResumeActionRef :: "manual_action option"
  trace :: "api_call list"

section \<open>Awaited requests and \<open>try\<close>/\<open>catch\<close>\<close>

text \<open>
  A step of an \<open>async\<close> body yields the exception it threw, if any, and the state. The
  steps of one handler run to completion in program order; the tasks of other handlers
  are not interleaved with them.
\<close>

type_synonym outcome = "thrown option \<times> app_state"

definition issue :: "world \<Rightarrow> api_call \<Rightarrow> app_state \<Rightarrow> outcome" where
  "issue w c s = (command_result w (length (trace s)) c, s\<lparr>trace := trace s @ [c]\<rparr>)"

definition ok :: "app_state \<Rightarrow> outcome" where
  "ok s = (None, s)"

definition and_then :: "outcome \<Rightarrow> (app_state \<Rightarrow> outcome) \<Rightarrow> outcome" where
  "and_then r f = (case r of (None, s) \<Rightarrow> f s | (Some e, s) \<Rightarrow> (Some e, s))"

text \<open>\<^verbatim>\<open>e instanceof Error ? e.message : d\<close>.\<close>

fun err_message :: "thrown \<Rightarrow> string \<Rightarrow> string" where
  "err_message (ErrorObj m) d = m"
| "err_message OtherThrown d = d"

text \<open>\<^verbatim>\<open>catch (e) { setError(e instanceof Error ? e.message : d) }\<close>.\<close>

definition catch_setError :: "string \<Rightarrow> outcome \<Rightarrow> app_state" where
  "catch_setError d r =
     (case r of (None, s) \<Rightarrow> s | (Some e, s) \<Rightarrow> s\<lparr>error := Some (err_message e d)\<rparr>)"

text \<open>\<^verbatim>\<open>s.includes(sub)\<close>.\<close>

fun includes_js :: "string \<Rightarrow> string \<Rightarrow> bool" where
  "includes_js [] sub = (sub = [])"
| "includes_js (c # cs) sub = (prefix sub (c # cs) \<or> includes_js cs sub)"

section \<open>Pause State and Reconciliation Loop\<close>

text \<open>
  \<^verbatim>\<open>isPausedInFuture\<close>, with the parser of dates and the current instant as parameters.
  \<open>null\<close> and the empty string are falsy; an invalid date compares false.
\<close>

definition isPausedInFuture :: "(string \<Rightarrow> int option) \<Rightarrow> int \<Rightarrow> string option \<Rightarrow> bool" where
  "isPausedInFuture parse now pausedUntil =
     (case pausedUntil of
        None \<Rightarrow> False
      | Some p \<Rightarrow>
          if p = [] then False
          else (case parse p of None \<Rightarrow> False | Some t \<Rightarrow> t > now))"

definition fetchAll_calls :: "api_call list" where
  "fetchAll_calls =
     [GetDistance, GetHumidity, GetTemperature, GetPcbTemp, GetLightBrightness,
      GetPumpSpeed, GetPumpStats]"

text \<open>
  \<^verbatim>\<open>fetchAll\<close>. The seven requests start in the order of the array; each has its own
  \<^verbatim>\<open>.catch(() => null)\<close>, so \<^verbatim>\<open>Promise.all\<close> always resolves and the outer
  \<^verbatim>\<open>catch\<close> is never entered.
\<close>

definition fetchAll :: "world \<Rightarrow> app_state \<Rightarrow> app_state" where
  "fetchAll w s =
     (let n = length (trace s);
          rd = (\<lambda>i c. case reading_result w (n + i) c of Inl e \<Rightarrow> None | Inr v \<Rightarrow> v);
          d = rd 0 GetDistance;
          h = rd 1 GetHumidity;
          t = rd 2 GetTemperature;
          p = rd 3 GetPcbTemp;
          lb = rd 4 GetLightBrightness;
          ps = rd 5 GetPumpSpeed;
          st = (case stats_result w (n + 6) of Inl e \<Rightarrow> None | Inr v \<Rightarrow> v)
      in s\<lparr>error := None,
            trace := trace s @ fetchAll_calls,
            sensorState :=
              \<lparr>distance = d, humidity = h, temperature = t, pcbTemp = p,
               lightBrightness = lb, pumpSpeed = ps, pumpStats = st\<rparr>,
            lightBrightnessSlider :=
              (case lb of None \<Rightarrow> lightBrightnessSlider s | Some v \<Rightarrow> v),
            lastUpdate := Some (epoch_ms w (n + 7)),
            loading := False\<rparr>)"

definition rules_unreachable_message :: string where
  "rules_unreachable_message =
     ''Couldn'' @ [CHR 0xE2, CHR 0x80, CHR 0x99] @ ''t reach the device. Make sure you''
     @ [CHR 0xE2, CHR 0x80, CHR 0x99] @ ''re on the same network as the Pi and it''
     @ [CHR 0xE2, CHR 0x80, CHR 0x99] @ ''s running the latest code.''"

definition rules_load_failed_message :: string where
  "rules_load_failed_message =
     ''Couldn'' @ [CHR 0xE2, CHR 0x80, CHR 0x99] @ ''t load rules.''"

text \<open>
  \<^verbatim>\<open>fetchRules\<close>. It catches every failure of the request itself, so it never throws.
\<close>

definition fetchRules :: "world \<Rightarrow> app_state \<Rightarrow> app_state" where
  "fetchRules w s =
     (let s1 = s\<lparr>rulesError := None, rulesLoading := True, trace := trace s @ [GetRules]\<rparr>
      in case rules_result w (length (trace s)) of
           Inr res \<Rightarrow>
             s1\<lparr>rules := (case resp_rules res of None \<Rightarrow> [] | Some rs \<Rightarrow> rs),
                lightRulesPausedUntil := light_rules_paused_until res,
                pumpRulesPausedUntil := pump_rules_paused_until res,
                rulesLoading := False\<rparr>
         | Inl e \<Rightarrow>
             (let msg = err_message e [];
                  isNetwork = (msg = ''Failed to fetch'' \<or> includes_js msg ''NetworkError''
                               \<or> includes_js msg ''load failed'')
              in s1\<lparr>rules := [],
                    lightRulesPausedUntil := None,
                    pumpRulesPausedUntil := None,
                    rulesError :=
                      Some (if isNetwork then rules_unreachable_message
                            else if msg \<noteq> [] then msg else rules_load_failed_message),
                    rulesLoading := False\<rparr>))"

text \<open>
  The polling effect. It runs when the token, or either pause field, changes: it starts a
  refresh of the readings and sets a timer whose period and whose tick are fixed from the
  pause fields at that moment; \<open>now\<close> is the clock reading \<^verbatim>\<open>new Date()\<close> of that run.
  Without a token there is no timer.
\<close>

record poll_timer =
  intervalMs :: int
  paused_at_setup :: bool

definition polling_timer :: "world \<Rightarrow> int \<Rightarrow> string option \<Rightarrow> string option \<Rightarrow> poll_timer" where
  "polling_timer w now light pump =
     (let paused = (isPausedInFuture (date_parse w) now light
                    \<or> isPausedInFuture (date_parse w) now pump)
      in \<lparr>intervalMs = (if paused then 5000 else 30000), paused_at_setup = paused\<rparr>)"

definition polling_effect ::
  "world \<Rightarrow> int \<Rightarrow> string option \<Rightarrow> app_state \<Rightarrow> app_state \<times> poll_timer option" where
  "polling_effect w now token s =
     (if token = None \<or> token = Some [] then (s, None)
      else (fetchAll w s,
            Some (polling_timer w now (lightRulesPausedUntil s) (pumpRulesPausedUntil s))))"

definition polling_tick :: "world \<Rightarrow> poll_timer \<Rightarrow> app_state \<Rightarrow> app_state" where
  "polling_tick w t s =
     (let s1 = fetchAll w s in if paused_at_setup t then fetchRules w s1 else s1)"

text \<open>
  The dependencies of the effect are the token, \<^verbatim>\<open>fetchAll\<close>, \<^verbatim>\<open>fetchRules\<close> and the
  two pause fields. The two callbacks never change (\<^verbatim>\<open>useCallback\<close> with no
  dependencies), so with the same token the effect runs again exactly when a pause field
  holds another value than before.
\<close>

definition pause_fields_changed :: "app_state \<Rightarrow> app_state \<Rightarrow> bool" where
  "pause_fields_changed s s' =
     (lightRulesPausedUntil s' \<noteq> lightRulesPausedUntil s
      \<or> pumpRulesPausedUntil s' \<noteq> pumpRulesPausedUntil s)"

text \<open>
  One tick of the timer \<open>t\<close> and the render that follows it, with the token unchanged.
  When the tick changed a pause field, the timer is cleared and the effect runs again,
  reading the clock as \<open>now\<close>; otherwise the timer stays as it was set.
\<close>

definition reconcile_tick ::
  "world \<Rightarrow> int \<Rightarrow> string option \<Rightarrow> poll_timer \<Rightarrow> app_state \<Rightarrow> app_state \<times> poll_timer option" where
  "reconcile_tick w now token t s =
     (let s1 = polling_tick w t s
      in if pause_fields_changed s s1 then polling_effect w now token s1 else (s1, Some t))"

section \<open>Manual actions and the Override Workflow\<close>

definition handleLightOn :: "world \<Rightarrow> ScheduleRule list \<Rightarrow> app_state \<Rightarrow> app_state" where
  "handleLightOn w rs s =
     (let effectiveBrightness =
            getEffectiveLightBrightnessFromRules (central_hhmm w (length (trace s))) rs
      in if effectiveBrightness = Some 0
         then s\<lparr>lightOverrideModal := \<lparr>lo_open = True, lo_action = On, lo_minutes = ''60''\<rparr>\<rparr>
         else catch_setError ''Light on failed''
                (and_then (issue w LightOn s) (\<lambda>s1. ok (fetchAll w s1))))"

definition handleLightOff :: "world \<Rightarrow> ScheduleRule list \<Rightarrow> app_state \<Rightarrow> app_state" where
  "handleLightOff w rs s =
     (let rulesWantOn =
            (case getEffectiveLightBrightnessFromRules (central_hhmm w (length (trace s))) rs of
               None \<Rightarrow> 0 | Some b \<Rightarrow> b) > 0
      in if rulesWantOn
         then s\<lparr>lightOverrideModal := \<lparr>lo_open = True, lo_action = Off, lo_minutes = ''60''\<rparr>\<rparr>
         else catch_setError ''Light off failed''
                (and_then (issue w LightOff s) (\<lambda>s1. ok (fetchAll w s1))))"

definition confirmLightOverride :: "world \<Rightarrow> app_state \<Rightarrow> app_state" where
  "confirmLightOverride w s =
     (let minutes = light_override_minutes (lo_minutes (lightOverrideModal s));
          action = lo_action (lightOverrideModal s);
          s0 = s\<lparr>lightOverrideModal := (lightOverrideModal s)\<lparr>lo_open := False\<rparr>\<rparr>
      in catch_setError ''Override failed''
           (and_then (issue w (PauseLightRulesForMinutes minutes) s0) (\<lambda>s1.
            and_then (ok (fetchRules w s1)) (\<lambda>s2.
            and_then (issue w (if action = On then LightOn else LightOff) s2) (\<lambda>s3.
            ok (fetchAll w s3))))))"

definition cancelLightOverride :: "app_state \<Rightarrow> app_state" where
  "cancelLightOverride s = s\<lparr>lightOverrideModal := (lightOverrideModal s)\<lparr>lo_open := False\<rparr>\<rparr>"

definition handleLightBrightness :: "world \<Rightarrow> rat \<Rightarrow> app_state \<Rightarrow> app_state" where
  "handleLightBrightness w v s =
     (let s0 = s\<lparr>lightBrightnessSlider := v\<rparr>
      in catch_setError ''Set brightness failed''
           (and_then (issue w (SetLightBrightness v) s0) (\<lambda>s1. ok (fetchAll w s1))))"

definition handlePumpOn :: "world \<Rightarrow> rat option \<Rightarrow> app_state \<Rightarrow> app_state" where
  "handlePumpOn w speed_now s =
     (if (case speed_now of None \<Rightarrow> 0 | Some v \<Rightarrow> v) \<le> 0
      then s\<lparr>pumpManualModal := \<lparr>pm_open = True, pm_minutes = ''5''\<rparr>\<rparr>
      else catch_setError ''Pump on failed''
             (and_then (issue w (SetPumpSpeed 100) s) (\<lambda>s1.
              and_then (issue w PumpOn s1) (\<lambda>s2.
              ok (fetchAll w s2)))))"

definition confirmPumpManual :: "world \<Rightarrow> app_state \<Rightarrow> app_state" where
  "confirmPumpManual w s =
     (let minutes = pump_manual_minutes (pm_minutes (pumpManualModal s));
          s0 = s\<lparr>pumpManualModal := \<lparr>pm_open = False, pm_minutes = ''5''\<rparr>\<rparr>
      in catch_setError ''Manual watering failed''
           (and_then (issue w (PausePumpRulesForMinutes minutes) s0) (\<lambda>s1.
            and_then (issue w (SetManualPumpOffInMinutes minutes) s1) (\<lambda>s2.
            and_then (ok (fetchRules w s2)) (\<lambda>s3.
            and_then (issue w (SetPumpSpeed 100) s3) (\<lambda>s4.
            and_then (issue w PumpOn s4) (\<lambda>s5.
            ok (fetchAll w s5))))))))"

definition cancelPumpManual :: "app_state \<Rightarrow> app_state" where
  "cancelPumpManual s = s\<lparr>pumpManualModal := \<lparr>pm_open = False, pm_minutes = ''5''\<rparr>\<rparr>"

definition handlePumpOff :: "world \<Rightarrow> app_state \<Rightarrow> app_state" where
  "handlePumpOff w s =
     catch_setError ''Pump off failed''
       (and_then (issue w PumpOff s) (\<lambda>s1. ok (fetchAll w s1)))"

text \<open>Calling the closure held by a control or by the pending cell.\<close>

fun run_action :: "world \<Rightarrow> manual_action \<Rightarrow> app_state \<Rightarrow> app_state" where
  "run_action w (HandleLightOn rs) s = handleLightOn w rs s"
| "run_action w (HandleLightOff rs) s = handleLightOff w rs s"
| "run_action w (HandleLightBrightness v) s = handleLightBrightness w v s"
| "run_action w (HandlePumpOn sp) s = handlePumpOn w sp s"
| "run_action w HandlePumpOff s = handlePumpOff w s"

section \<open>Resume Gate\<close>

definition runOrShowResumeLight :: "world \<Rightarrow> manual_action \<Rightarrow> app_state \<Rightarrow> app_state" where
  "runOrShowResumeLight w action s =
     (if isPausedInFuture (date_parse w) (epoch_ms w (length (trace s))) (lightRulesPausedUntil s)
      then s\<lparr>resumeModal :=
               \<lparr>rm_open = True, rm_type = Light,
                rm_pausedUntil = (case lightRulesPausedUntil s of None \<Rightarrow> [] | Some p \<Rightarrow> p)\<rparr>,
             pendingResumeActionRef := Some action\<rparr>
      else run_action w action s)"

definition runOrShowResumePump :: "world \<Rightarrow> manual_action \<Rightarrow> app_state \<Rightarrow> app_state" where
  "runOrShowResumePump w action s =
     (if isPausedInFuture (date_parse w) (epoch_ms w (length (trace s))) (pumpRulesPausedUntil s)
      then s\<lparr>resumeModal :=
               \<lparr>rm_open = True, rm_type = Pump,
                rm_pausedUntil = (case pumpRulesPausedUntil s of None \<Rightarrow> [] | Some p \<Rightarrow> p)\<rparr>,
             pendingResumeActionRef := Some action\<rparr>
      else run_action w action s)"

text \<open>\<^verbatim>\<open>runPending\<close>: take the closure out of the cell, clear the cell, call it.\<close>

definition runPending :: "world \<Rightarrow> app_state \<Rightarrow> app_state" where
  "runPending w s =
     (let fn = pendingResumeActionRef s;
          s1 = s\<lparr>pendingResumeActionRef := None\<rparr>
      in case fn of None \<Rightarrow> s1 | Some a \<Rightarrow> run_action w a s1)"

definition confirmResumeModal :: "world \<Rightarrow> bool \<Rightarrow> app_state \<Rightarrow> app_state" where
  "confirmResumeModal w resume s =
     (let ty = rm_type (resumeModal s);
          s0 = s\<lparr>resumeModal := (resumeModal s)\<lparr>rm_open := False\<rparr>\<rparr>
      in if resume then
           (case and_then
                   (issue w (if ty = Light then ResumeLightRules else ResumePumpRules) s0)
                   (\<lambda>s1. ok (fetchRules w s1)) of
              (Some e, s2) \<Rightarrow> s2\<lparr>error := Some (err_message e ''Failed to resume rules'')\<rparr>
            | (None, s2) \<Rightarrow> runPending w s2)
         else runPending w s0)"

definition closeResumeModal :: "app_state \<Rightarrow> app_state" where
  "closeResumeModal s =
     s\<lparr>resumeModal := (resumeModal s)\<lparr>rm_open := False\<rparr>, pendingResumeActionRef := None\<rparr>"

text \<open>The requests a handler added to the trace.\<close>

definition new_calls :: "app_state \<Rightarrow> app_state \<Rightarrow> api_call list" where
  "new_calls s s' = drop (length (trace s)) (trace s')"

section \<open>Specification-side notions\<close>

text \<open>The value a reading takes from its request: \<open>null\<close> when the request failed.\<close>

definition read_or_null :: "thrown + 'a option \<Rightarrow> 'a option" where
  "read_or_null r = (case r of Inl e \<Rightarrow> None | Inr v \<Rightarrow> v)"

text \<open>
  A pause field that holds an instant after \<open>now\<close>, and one that is absent or holds an
  instant not after \<open>now\<close>.
\<close>

definition future_instant :: "(string \<Rightarrow> int option) \<Rightarrow> int \<Rightarrow> string option \<Rightarrow> bool" where
  "future_instant parse now p =
     (case p of None \<Rightarrow> False
      | Some s \<Rightarrow> s \<noteq> [] \<and> (case parse s of None \<Rightarrow> False | Some t \<Rightarrow> now < t))"

definition absent_or_past :: "(string \<Rightarrow> int option) \<Rightarrow> int \<Rightarrow> string option \<Rightarrow> bool" where
  "absent_or_past parse now p =
     (case p of None \<Rightarrow> True
      | Some s \<Rightarrow> (case parse s of None \<Rightarrow> False | Some t \<Rightarrow> t \<le> now))"

text \<open>The full sequence of requests of each override, for a duration of \<open>m\<close> minutes.\<close>

definition light_override_sequence :: "int \<Rightarrow> on_off \<Rightarrow> api_call list" where
  "light_override_sequence m a =
     [PauseLightRulesForMinutes m, GetRules, if a = On then LightOn else LightOff]
     @ fetchAll_calls"

definition pump_manual_sequence :: "int \<Rightarrow> api_call list" where
  "pump_manual_sequence m =
     [PausePumpRulesForMinutes m, SetManualPumpOffInMinutes m, GetRules,
      SetPumpSpeed 100, PumpOn] @ fetchAll_calls"

section \<open>Example states and devices\<close>

text \<open>The state of \<^verbatim>\<open>App\<close> at its first render.\<close>

definition initial_state :: app_state where
  "initial_state =
     \<lparr>error = None, loading = True, lastUpdate = None,
      sensorState = \<lparr>distance = None, humidity = None, temperature = None, pcbTemp = None,
                     lightBrightness = None, pumpSpeed = None, pumpStats = None\<rparr>,
      lightBrightnessSlider = 50, rules = [], rulesError = None, rulesLoading = False,
      lightOverrideModal = \<lparr>lo_open = False, lo_action = On, lo_minutes = ''60''\<rparr>,
      pumpManualModal = \<lparr>pm_open = False, pm_minutes = ''5''\<rparr>,
      lightRulesPausedUntil = None, pumpRulesPausedUntil = None,
      resumeModal = \<lparr>rm_open = False, rm_type = Light, rm_pausedUntil = []\<rparr>,
      pendingResumeActionRef = None, trace = []\<rparr>"

text \<open>
  A parser of dates that knows two instants, midnight and one o'clock UTC of 1 January
  2026; the example devices read the clock at half past midnight.
\<close>

definition example_parse :: "string \<Rightarrow> int option" where
  "example_parse s =
     (if s = ''2026-01-01T00:00:00Z'' then Some 1767225600000
      else if s = ''2026-01-01T01:00:00Z'' then Some 1767229200000
      else None)"

text \<open>A device that cannot be reached, and one that answers every request.\<close>

definition offline_world :: world where
  "offline_world =
     \<lparr>command_result = (\<lambda>n c. Some (ErrorObj ''Failed to fetch'')),
      reading_result = (\<lambda>n c. Inl (ErrorObj ''Failed to fetch'')),
      stats_result = (\<lambda>n. Inl (ErrorObj ''Failed to fetch'')),
      rules_result = (\<lambda>n. Inl (ErrorObj ''Failed to fetch'')),
      central_hhmm = (\<lambda>n. ''09:15''),
      epoch_ms = (\<lambda>n. 1767227400000),
      date_parse = example_parse\<rparr>"

definition online_world :: world where
  "online_world =
     \<lparr>command_result = (\<lambda>n c. None),
      reading_result = (\<lambda>n c. Inr (Some 42)),
      stats_result = (\<lambda>n. Inr (Some \<lparr>speed = Some 100, power = Some 3\<rparr>)),
      rules_result = (\<lambda>n. Inr \<lparr>resp_rules = Some [], light_rules_paused_until = None,
                                 pump_rules_paused_until = None\<rparr>),
      central_hhmm = (\<lambda>n. ''09:15''),
      epoch_ms = (\<lambda>n. 1767227400000),
      date_parse = example_parse\<rparr>"

text \<open>
  A state with cached readings and rules, the light rules paused until one o'clock
  (ahead of the example clock) and the pump rules until midnight (behind it); the same
  with both pauses ahead; with a pending action behind the resume dialog; and with both
  override prompts filled in.
\<close>

definition cached_state :: app_state where
  "cached_state =
     initial_state
       \<lparr>sensorState := \<lparr>distance = Some 12, humidity = Some 45, temperature = Some 21,
                        pcbTemp = Some 30, lightBrightness = Some 70, pumpSpeed = Some 0,
                        pumpStats = None\<rparr>,
        lightBrightnessSlider := 70,
        rules := [LightRule ''a'' (Some True) None ''08:00'' (Some ''10:00'') (Some 40)],
        lightRulesPausedUntil := Some ''2026-01-01T01:00:00Z'',
        pumpRulesPausedUntil := Some ''2026-01-01T00:00:00Z''\<rparr>"

definition both_paused_state :: app_state where
  "both_paused_state = cached_state\<lparr>pumpRulesPausedUntil := Some ''2026-01-01T01:00:00Z''\<rparr>"

definition gate_state :: app_state where
  "gate_state =
     both_paused_state
       \<lparr>resumeModal := \<lparr>rm_open = True, rm_type = Pump, rm_pausedUntil = ''2026-01-01T01:00:00Z''\<rparr>,
        pendingResumeActionRef := Some HandlePumpOff\<rparr>"

definition light_gate_state :: app_state where
  "light_gate_state =
     both_paused_state
       \<lparr>resumeModal := \<lparr>rm_open = True, rm_type = Light, rm_pausedUntil = ''2026-01-01T01:00:00Z''\<rparr>,
        pendingResumeActionRef := Some (HandleLightBrightness 30)\<rparr>"

definition override_state :: app_state where
  "override_state =
     cached_state
       \<lparr>lightOverrideModal := \<lparr>lo_open = True, lo_action = Off, lo_minutes = ''90''\<rparr>,
        pumpManualModal := \<lparr>pm_open = True, pm_minutes = ''10''\<rparr>\<rparr>"

text \<open>
  A device that answers every request and keeps reporting the pause instants of the
  cached state. The timer set for the cached state at half past midnight, and the loop
  after one tick of it at half past one.
\<close>

definition steady_world :: world where
  "steady_world =
     online_world
       \<lparr>rules_result :=
          (\<lambda>n. Inr \<lparr>resp_rules = Some (rules cached_state),
                     light_rules_paused_until = Some ''2026-01-01T01:00:00Z'',
                     pump_rules_paused_until = Some ''2026-01-01T00:00:00Z''\<rparr>)\<rparr>"

definition short_timer :: poll_timer where
  "short_timer = \<lparr>intervalMs = 5000, paused_at_setup = True\<rparr>"

definition expired_tick :: "app_state \<times> poll_timer option" where
  "expired_tick =
     reconcile_tick steady_world 1767231000000 (Some ''token'') short_timer
       (fst (polling_effect steady_world 1767227400000 (Some ''token'') cached_state))"

section \<open>Properties of the Time/Range Evaluator\<close>

lemma is_digit_not_ws: "is_digit c \<Longrightarrow> \<not> is_ws c"
  by (auto simp: is_digit_def is_ws_def)

lemma is_digit_not_colon: "is_digit c \<Longrightarrow> c \<noteq> CHR '':''"
  by (auto simp: is_digit_def)

lemma Number_js_two_digits:
  assumes "is_digit a" "is_digit b"
  shows "Number_js [a, b] = Num (10 * digit_val a + digit_val b)"
  using assms by (simp add: Number_js_def trim_js_def is_digit_not_ws)

lemma hhmmToMinutes_hhmm:
  assumes "is_hhmm s"
  shows "hhmmToMinutes s = Num (minutes_of s)"
proof -
  from assms obtain a b d e where s: "s = [a, b, CHR '':'', d, e]"
    and dg: "is_digit a" "is_digit b" "is_digit d" "is_digit e"
    by (cases s rule: is_hhmm.cases) auto
  have tr: "trim_js s = s"
    using dg by (simp add: s trim_js_def is_digit_not_ws)
  have sp: "split_js (CHR '':'') s = [[a, b], [d, e]]"
    using dg by (simp add: s is_digit_not_colon)
  show ?thesis
    using dg by (simp add: hhmmToMinutes_def tr sp Number_js_two_digits) (simp add: s)
qed

lemma is_hhmm_nonempty: "is_hhmm e \<Longrightarrow> e \<noteq> []"
  by auto

lemma isTimeInRange_hhmm:
  assumes "is_hhmm now" "is_hhmm start" "is_hhmm e"
  shows "isTimeInRange now start (Some e) =
          (if minutes_of start < minutes_of e
           then minutes_of start \<le> minutes_of now \<and> minutes_of now < minutes_of e
           else minutes_of start \<le> minutes_of now \<or> minutes_of now < minutes_of e)"
proof -
  from assms(3) have ne: "e \<noteq> []" by (rule is_hhmm_nonempty)
  show ?thesis
    using assms by (simp add: isTimeInRange_def ne hhmmToMinutes_hhmm)
qed

lemmas hhmm_eval = is_digit_def digit_val_def

text \<open>
  Claim C1. Without an end time (\<open>null\<close> or the empty string) a range matches exactly
  when \<open>now\<close> equals \<open>start\<close>. With well-formed \<open>HH:MM\<close> times \<open>now\<close>, \<open>start\<close> and
  \<open>end\<close>, compared by their minutes since midnight: if \<open>end > start\<close> the range matches
  iff \<open>start \<le> now < end\<close>; if \<open>end \<le> start\<close> (the range wraps midnight) it matches iff
  \<open>now \<ge> start\<close> or \<open>now < end\<close>.
\<close>

theorem isTimeInRange_spec:
  "isTimeInRange now start None = (now = start)
   \<and> isTimeInRange now start (Some []) = (now = start)
   \<and> (is_hhmm now \<and> is_hhmm start \<and> is_hhmm e \<longrightarrow>
        isTimeInRange now start (Some e) =
          (if minutes_of start < minutes_of e
           then minutes_of start \<le> minutes_of now \<and> minutes_of now < minutes_of e
           else minutes_of start \<le> minutes_of now \<or> minutes_of now < minutes_of e))"
  by (simp add: isTimeInRange_hhmm) (simp add: isTimeInRange_def)

text \<open>The two examples of the specification: 23:30 and 12:00 against 22:00--06:00.\<close>

theorem isTimeInRange_spec_witness:
  "is_hhmm ''23:30'' \<and> is_hhmm ''22:00'' \<and> is_hhmm ''06:00''
   \<and> isTimeInRange ''23:30'' ''22:00'' (Some ''06:00'')
   \<and> is_hhmm ''12:00'' \<and> \<not> isTimeInRange ''12:00'' ''22:00'' (Some ''06:00'')"
  using isTimeInRange_spec [of "''23:30''" "''22:00''" "''06:00''"]
    isTimeInRange_spec [of "''12:00''" "''22:00''" "''06:00''"]
  by (simp add: hhmm_eval)

subsection \<open>Effective brightness\<close>

lemma Max_insert_max:
  fixes a b :: rat
  assumes "finite S"
  shows "Max (insert (max a b) S) = Max (insert a (insert b S))"
proof (cases "S = {}")
  case True
  then show ?thesis by simp
next
  case False
  with assms show ?thesis by (simp add: max.assoc)
qed

text \<open>The loop, for any value of the accumulator it starts from.\<close>

lemma brightness_loop_acc:
  "brightness_loop now rs acc =
     (let bs = map rule_brightness (filter (rule_matches now) rs)
      in case acc of
           None \<Rightarrow> (if bs = [] then None else Some (Max (set bs)))
         | Some m \<Rightarrow> Some (Max (insert m (set bs))))"
proof (induction rs arbitrary: acc)
  case Nil
  then show ?case by (simp split: option.splits)
next
  case (Cons r rs)
  show ?case
  proof (cases r)
    case (PumpRule i en pa t d)
    then show ?thesis by (simp add: Cons.IH)
  next
    case (LightRule i en pa st e bp)
    then show ?thesis
      by (auto simp: Cons.IH Let_def Max_insert_max simp del: Max_insert split: option.splits)
  qed
qed

text \<open>
  Claim C2. The effective light brightness is \<open>None\<close> ("no active rule") when no light
  rule that is enabled, not paused and in range matches the current time, and otherwise
  the maximum brightness over the matching rules; a matching rule of 0 percent gives
  \<open>Some 0\<close>, not \<open>None\<close>.
\<close>

theorem effective_brightness_is_max:
  "getEffectiveLightBrightnessFromRules now rs =
     (let ms = filter (rule_matches now) rs
      in if ms = [] then None else Some (Max (set (map rule_brightness ms))))"
  by (simp add: getEffectiveLightBrightnessFromRules_def brightness_loop_acc Let_def)

text \<open>
  The example of the specification (40 percent from 08:00 to 10:00, 80 percent from 09:00
  to 09:30, at 09:15), a single matching rule of 0 percent, and a rule out of range.
\<close>

theorem effective_brightness_is_max_witness:
  "getEffectiveLightBrightnessFromRules ''09:15''
     [LightRule ''a'' (Some True) None ''08:00'' (Some ''10:00'') (Some 40),
      LightRule ''b'' None (Some False) ''09:00'' (Some ''09:30'') (Some 80)] = Some 80
   \<and> getEffectiveLightBrightnessFromRules ''09:15''
     [LightRule ''a'' (Some True) None ''08:00'' (Some ''10:00'') (Some 0)] = Some 0
   \<and> getEffectiveLightBrightnessFromRules ''11:00''
     [LightRule ''a'' (Some True) None ''08:00'' (Some ''10:00'') (Some 40)] = None"
  using effective_brightness_is_max [of "''09:15''"
     "[LightRule ''a'' (Some True) None ''08:00'' (Some ''10:00'') (Some 40),
      LightRule ''b'' None (Some False) ''09:00'' (Some ''09:30'') (Some 80)]"]
    effective_brightness_is_max [of "''09:15''"
     "[LightRule ''a'' (Some True) None ''08:00'' (Some ''10:00'') (Some 0)]"]
    effective_brightness_is_max [of "''11:00''"
     "[LightRule ''a'' (Some True) None ''08:00'' (Some ''10:00'') (Some 40)]"]
  by (simp add: isTimeInRange_hhmm hhmm_eval)

section \<open>Properties of the override durations\<close>

lemmas parse_eval = parseInt10_def is_ws_def is_digit_def digit_val_def

text \<open>
  Claim C9, as the code has it. The duration used is an integer in \<open>[1, 1440]\<close> for the
  light and in \<open>[1, 120]\<close> for the pump. Input with no leading integer, or whose leading
  integer is 0, gives the default (60 for the light, 5 for the pump). Any other integer is
  clamped to the nearest bound: below 1 it becomes 1, above the upper bound it becomes
  the upper bound. The action is never rejected.
\<close>

theorem override_minutes_clamped:
  "1 \<le> light_override_minutes s \<and> light_override_minutes s \<le> 1440
   \<and> 1 \<le> pump_manual_minutes s \<and> pump_manual_minutes s \<le> 120
   \<and> (parseInt10 s = NaN \<or> parseInt10 s = Num 0 \<longrightarrow>
        light_override_minutes s = 60 \<and> pump_manual_minutes s = 5)
   \<and> (\<forall>n. parseInt10 s = Num n \<and> n \<noteq> 0 \<longrightarrow>
        light_override_minutes s = (if n < 1 then 1 else if 1440 < n then 1440 else n)
        \<and> pump_manual_minutes s = (if n < 1 then 1 else if 120 < n then 120 else n))"
  by (auto simp: light_override_minutes_def pump_manual_minutes_def)

text \<open>Text, a value above both bounds, a negative value, and a value in range.\<close>

theorem override_minutes_clamped_witness:
  "parseInt10 ''abc'' = NaN \<and> light_override_minutes ''abc'' = 60 \<and> pump_manual_minutes ''abc'' = 5
   \<and> parseInt10 ''5000'' = Num 5000 \<and> light_override_minutes ''5000'' = 1440
   \<and> pump_manual_minutes ''5000'' = 120
   \<and> parseInt10 ''-3'' = Num (- 3) \<and> light_override_minutes ''-3'' = 1
   \<and> parseInt10 ''45'' = Num 45 \<and> light_override_minutes ''45'' = 45"
  using override_minutes_clamped [of "''abc''"] override_minutes_clamped [of "''5000''"]
    override_minutes_clamped [of "''-3''"] override_minutes_clamped [of "''45''"]
  by (simp add: parse_eval)

text \<open>
  The input \<open>5000\<close> is out of range for both prompts, and the duration used is the upper
  bound, not the default.
\<close>

theorem out_of_range_not_default_counterexample:
  "parseInt10 ''5000'' = Num 5000 \<and> \<not> (5000 \<le> (1440::int))
   \<and> light_override_minutes ''5000'' = 1440 \<and> light_override_minutes ''5000'' \<noteq> 60
   \<and> \<not> (5000 \<le> (120::int))
   \<and> pump_manual_minutes ''5000'' = 120 \<and> pump_manual_minutes ''5000'' \<noteq> 5"
  by (simp add: parse_eval light_override_minutes_def pump_manual_minutes_def)

section \<open>Properties of the Pause State and the Reconciliation Loop\<close>

lemmas example_defs = cached_state_def initial_state_def both_paused_state_def gate_state_def
  override_state_def offline_world_def online_world_def example_parse_def

lemma fetchAll_trace: "trace (fetchAll w s) = trace s @ fetchAll_calls"
  by (simp add: fetchAll_def Let_def)

lemma fetchRules_trace: "trace (fetchRules w s) = trace s @ [GetRules]"
  by (simp add: fetchRules_def Let_def split: sum.splits)

lemma rules_messages_nonempty:
  "rules_unreachable_message \<noteq> []" "rules_load_failed_message \<noteq> []"
  by (simp_all add: rules_unreachable_message_def rules_load_failed_message_def)

text \<open>
  Claim C7. When the request for the rules fails, \<^verbatim>\<open>fetchRules\<close> leaves the rule list
  empty and both pause fields \<open>null\<close>, whatever they held before, and sets a non-empty
  error message.
\<close>

theorem fetchRules_failure_resets:
  assumes "rules_result w (length (trace s)) = Inl e"
  shows "rules (fetchRules w s) = []
         \<and> lightRulesPausedUntil (fetchRules w s) = None
         \<and> pumpRulesPausedUntil (fetchRules w s) = None
         \<and> (\<exists>m. rulesError (fetchRules w s) = Some m \<and> m \<noteq> [])"
  using assms by (simp add: fetchRules_def Let_def rules_messages_nonempty)

text \<open>A state with a cached rule and a light pause, against the unreachable device.\<close>

theorem fetchRules_failure_resets_witness:
  "rules_result offline_world (length (trace cached_state)) = Inl (ErrorObj ''Failed to fetch'')
   \<and> rules cached_state \<noteq> []
   \<and> lightRulesPausedUntil cached_state \<noteq> None
   \<and> rules (fetchRules offline_world cached_state) = []
   \<and> lightRulesPausedUntil (fetchRules offline_world cached_state) = None
   \<and> pumpRulesPausedUntil (fetchRules offline_world cached_state) = None
   \<and> rulesError (fetchRules offline_world cached_state) = Some rules_unreachable_message"
proof -
  have h: "rules_result offline_world (length (trace cached_state)) = Inl (ErrorObj ''Failed to fetch'')"
    by (simp add: offline_world_def)
  show ?thesis
    using h fetchRules_failure_resets [OF h]
    by (simp add: cached_state_def initial_state_def fetchRules_def offline_world_def)
qed

text \<open>
  A reading of 12 for the distance is cached; the request for the distance fails; the
  displayed distance is then \<open>null\<close>, not 12.
\<close>

theorem failed_read_clears_value_counterexample:
  "reading_result offline_world (length (trace cached_state)) GetDistance
     = Inl (ErrorObj ''Failed to fetch'')
   \<and> distance (sensorState cached_state) = Some 12
   \<and> distance (sensorState (fetchAll offline_world cached_state)) = None
   \<and> distance (sensorState (fetchAll offline_world cached_state))
       \<noteq> distance (sensorState cached_state)"
  by (simp add: offline_world_def cached_state_def initial_state_def fetchAll_def)

text \<open>
  Claim C8, as the code has it. After a refresh of the readings every sensor field holds
  what its own request returned, and \<open>null\<close> when that request failed, whatever it held
  before. Only the brightness slider keeps its last value when the brightness request
  fails or returns nothing. The refresh leaves the rules and both pause fields as they
  were.
\<close>

theorem fetchAll_replaces_readings:
  "(let n = length (trace s); st = sensorState (fetchAll w s) in
     distance st = read_or_null (reading_result w n GetDistance)
     \<and> humidity st = read_or_null (reading_result w (n + 1) GetHumidity)
     \<and> temperature st = read_or_null (reading_result w (n + 2) GetTemperature)
     \<and> pcbTemp st = read_or_null (reading_result w (n + 3) GetPcbTemp)
     \<and> lightBrightness st = read_or_null (reading_result w (n + 4) GetLightBrightness)
     \<and> pumpSpeed st = read_or_null (reading_result w (n + 5) GetPumpSpeed)
     \<and> pumpStats st = read_or_null (stats_result w (n + 6))
     \<and> lightBrightnessSlider (fetchAll w s) =
         (case read_or_null (reading_result w (n + 4) GetLightBrightness) of
            None \<Rightarrow> lightBrightnessSlider s | Some v \<Rightarrow> v)
     \<and> rules (fetchAll w s) = rules s
     \<and> lightRulesPausedUntil (fetchAll w s) = lightRulesPausedUntil s
     \<and> pumpRulesPausedUntil (fetchAll w s) = pumpRulesPausedUntil s)"
  by (simp add: fetchAll_def read_or_null_def Let_def)

text \<open>The cached state against the unreachable device and against the answering one.\<close>

theorem fetchAll_replaces_readings_witness:
  "distance (sensorState cached_state) = Some 12
   \<and> distance (sensorState (fetchAll offline_world cached_state)) = None
   \<and> lightBrightnessSlider (fetchAll offline_world cached_state) = 70
   \<and> distance (sensorState (fetchAll online_world cached_state)) = Some 42"
  using fetchAll_replaces_readings [of cached_state offline_world]
    fetchAll_replaces_readings [of cached_state online_world]
  by (simp add: Let_def read_or_null_def offline_world_def online_world_def
        cached_state_def initial_state_def)

lemma absent_or_past_not_paused:
  "absent_or_past parse now p \<Longrightarrow> \<not> isPausedInFuture parse now p"
  by (auto simp: absent_or_past_def isPausedInFuture_def split: option.splits)

lemma future_instant_paused:
  "future_instant parse now p \<Longrightarrow> isPausedInFuture parse now p"
  by (auto simp: future_instant_def isPausedInFuture_def split: option.splits)

lemma fetchAll_pause_fields:
  "lightRulesPausedUntil (fetchAll w s) = lightRulesPausedUntil s"
  "pumpRulesPausedUntil (fetchAll w s) = pumpRulesPausedUntil s"
  by (simp_all add: fetchAll_def Let_def)

lemma polling_timer_interval:
  "intervalMs (polling_timer w now light pump)
     = (if isPausedInFuture (date_parse w) now light \<or> isPausedInFuture (date_parse w) now pump
        then 5000 else 30000)"
  by (simp add: polling_timer_def Let_def)

lemma polling_tick_calls:
  "new_calls s (polling_tick w t s)
     = fetchAll_calls @ (if paused_at_setup t then [GetRules] else [])"
  by (simp add: polling_tick_def Let_def new_calls_def fetchAll_trace fetchRules_trace)

lemma polling_tick_base_keeps_fields:
  "\<not> paused_at_setup t \<Longrightarrow> \<not> pause_fields_changed s (polling_tick w t s)"
  by (simp add: polling_tick_def Let_def pause_fields_changed_def fetchAll_pause_fields)

lemmas loop_example_defs = steady_world_def short_timer_def expired_tick_def online_world_def
  cached_state_def initial_state_def example_parse_def

lemma steady_tick_fields:
  "lightRulesPausedUntil (fetchRules steady_world s) = Some ''2026-01-01T01:00:00Z''"
  "pumpRulesPausedUntil (fetchRules steady_world s) = Some ''2026-01-01T00:00:00Z''"
  by (simp_all add: fetchRules_def Let_def steady_world_def online_world_def)

lemma expired_tick_eq:
  "expired_tick =
     (polling_tick steady_world short_timer
        (fst (polling_effect steady_world 1767227400000 (Some ''token'') cached_state)),
      Some short_timer)"
  by (simp add: expired_tick_def reconcile_tick_def Let_def pause_fields_changed_def
        polling_tick_def polling_effect_def short_timer_def steady_tick_fields
        fetchAll_pause_fields)
     (simp add: cached_state_def)

text \<open>
  The timer is set at half past midnight, with the light pause (one o'clock) ahead of
  the clock: 5000 ms. At half past one a tick refetches the rules and the device reports
  the same instants. Both pause fields are then in the past, and the timer in force is
  still the one of 5000 ms, not one of 30000 ms.
\<close>

theorem expired_pause_keeps_short_interval_counterexample:
  "snd (polling_effect steady_world 1767227400000 (Some ''token'') cached_state)
     = Some short_timer
   \<and> absent_or_past (date_parse steady_world) 1767231000000
       (lightRulesPausedUntil (fst expired_tick))
   \<and> absent_or_past (date_parse steady_world) 1767231000000
       (pumpRulesPausedUntil (fst expired_tick))
   \<and> fst expired_tick
       = polling_tick steady_world short_timer
           (fst (polling_effect steady_world 1767227400000 (Some ''token'') cached_state))
   \<and> snd expired_tick = Some short_timer
   \<and> intervalMs short_timer = 5000
   \<and> intervalMs short_timer \<noteq> 30000"
proof -
  have a: "snd (polling_effect steady_world 1767227400000 (Some ''token'') cached_state)
     = Some short_timer"
    by (simp add: polling_effect_def polling_timer_def isPausedInFuture_def Let_def
          loop_example_defs)
  have b: "lightRulesPausedUntil (fst expired_tick) = Some ''2026-01-01T01:00:00Z''"
    "pumpRulesPausedUntil (fst expired_tick) = Some ''2026-01-01T00:00:00Z''"
    by (simp_all add: expired_tick_eq polling_tick_def Let_def short_timer_def
          steady_tick_fields)
  have c: "date_parse steady_world = example_parse"
    by (simp add: steady_world_def online_world_def)
  have p: "absent_or_past (date_parse steady_world) 1767231000000
             (lightRulesPausedUntil (fst expired_tick))"
    "absent_or_past (date_parse steady_world) 1767231000000
             (pumpRulesPausedUntil (fst expired_tick))"
    by (simp_all add: b c absent_or_past_def example_parse_def)
  have t: "snd expired_tick = Some short_timer"
    by (simp add: expired_tick_eq)
  have i: "intervalMs short_timer = 5000"
    by (simp add: short_timer_def)
  have f: "fst expired_tick
       = polling_tick steady_world short_timer
           (fst (polling_effect steady_world 1767227400000 (Some ''token'') cached_state))"
    by (simp add: expired_tick_eq)
  show ?thesis
    using a p f t i by simp
qed

text \<open>
  Claim C6, as the code has it. With a token, each run of the polling effect sets a
  timer whose period is 5000 ms when the light or the pump pause field holds an instant
  after the clock reading \<open>now\<close> of that run, and 30000 ms when each of the two fields is
  absent or holds an instant not after it. A tick of the timer refreshes the readings,
  and refetches the rules only when the timer was set with a pause ahead. The timer stays
  in force, period included, for as long as the ticks leave both pause fields as they
  were; once a tick changes a pause field the effect runs again and sets the timer
  from the new fields and the new clock reading. A timer of 30000 ms never changes a
  pause field by its tick.
\<close>

theorem polling_interval_by_effect_run:
  assumes "token = Some tk" "tk \<noteq> []"
  shows "(\<exists>t. snd (polling_effect w now token s) = Some t
           \<and> (let light = lightRulesPausedUntil s; pump = pumpRulesPausedUntil s in
              (future_instant (date_parse w) now light \<or> future_instant (date_parse w) now pump
                 \<longrightarrow> intervalMs t = 5000 \<and> paused_at_setup t)
              \<and> (absent_or_past (date_parse w) now light
                  \<and> absent_or_past (date_parse w) now pump
                 \<longrightarrow> intervalMs t = 30000 \<and> \<not> paused_at_setup t)))
         \<and> new_calls s (polling_tick w t0 s)
             = fetchAll_calls @ (if paused_at_setup t0 then [GetRules] else [])
         \<and> (\<not> pause_fields_changed s (polling_tick w t0 s) \<longrightarrow>
               reconcile_tick w now token t0 s = (polling_tick w t0 s, Some t0))
         \<and> (pause_fields_changed s (polling_tick w t0 s) \<longrightarrow>
               reconcile_tick w now token t0 s = polling_effect w now token (polling_tick w t0 s))
         \<and> (\<not> paused_at_setup t0 \<longrightarrow> \<not> pause_fields_changed s (polling_tick w t0 s))"
proof (intro conjI)
  show "\<exists>t. snd (polling_effect w now token s) = Some t
           \<and> (let light = lightRulesPausedUntil s; pump = pumpRulesPausedUntil s in
              (future_instant (date_parse w) now light \<or> future_instant (date_parse w) now pump
                 \<longrightarrow> intervalMs t = 5000 \<and> paused_at_setup t)
              \<and> (absent_or_past (date_parse w) now light
                  \<and> absent_or_past (date_parse w) now pump
                 \<longrightarrow> intervalMs t = 30000 \<and> \<not> paused_at_setup t))"
    using assms
    by (auto simp: polling_effect_def polling_timer_def Let_def
          dest: absent_or_past_not_paused future_instant_paused)
  show "new_calls s (polling_tick w t0 s)
          = fetchAll_calls @ (if paused_at_setup t0 then [GetRules] else [])"
    by (rule polling_tick_calls)
  show "\<not> pause_fields_changed s (polling_tick w t0 s) \<longrightarrow>
          reconcile_tick w now token t0 s = (polling_tick w t0 s, Some t0)"
    by (simp add: reconcile_tick_def Let_def)
  show "pause_fields_changed s (polling_tick w t0 s) \<longrightarrow>
          reconcile_tick w now token t0 s = polling_effect w now token (polling_tick w t0 s)"
    by (simp add: reconcile_tick_def Let_def)
  show "\<not> paused_at_setup t0 \<longrightarrow> \<not> pause_fields_changed s (polling_tick w t0 s)"
    by (simp add: polling_tick_base_keeps_fields)
qed

text \<open>
  At half past midnight the light pause of the cached state is ahead of the clock:
  5000 ms; the first render has no pause: 30000 ms. The timer of 5000 ms, ticking at
  half past one: against the device that reports the same instants it stays; against
  the device that reports no pause the effect runs again and sets 30000 ms.
\<close>

theorem polling_interval_by_effect_run_witness:
  "future_instant (date_parse online_world) 1767227400000 (lightRulesPausedUntil cached_state)
   \<and> snd (polling_effect online_world 1767227400000 (Some ''token'') cached_state)
       = Some \<lparr>intervalMs = 5000, paused_at_setup = True\<rparr>
   \<and> absent_or_past (date_parse online_world) 1767227400000 (lightRulesPausedUntil initial_state)
   \<and> absent_or_past (date_parse online_world) 1767227400000 (pumpRulesPausedUntil initial_state)
   \<and> snd (polling_effect online_world 1767227400000 (Some ''token'') initial_state)
       = Some \<lparr>intervalMs = 30000, paused_at_setup = False\<rparr>
   \<and> \<not> pause_fields_changed cached_state (polling_tick steady_world short_timer cached_state)
   \<and> snd (reconcile_tick steady_world 1767231000000 (Some ''token'') short_timer cached_state)
       = Some short_timer
   \<and> pause_fields_changed cached_state (polling_tick online_world short_timer cached_state)
   \<and> snd (reconcile_tick online_world 1767231000000 (Some ''token'') short_timer cached_state)
       = Some \<lparr>intervalMs = 30000, paused_at_setup = False\<rparr>
   \<and> new_calls cached_state (polling_tick online_world short_timer cached_state)
       = fetchAll_calls @ [GetRules]"
proof -
  have tok: "Some ''token'' = Some ''token''" "''token'' \<noteq> []"
    by simp_all
  note t1 = polling_interval_by_effect_run
      [OF tok, of online_world 1767227400000 cached_state short_timer]
  note t2 = polling_interval_by_effect_run
      [OF tok, of online_world 1767227400000 initial_state short_timer]
  note t3 = polling_interval_by_effect_run
      [OF tok, of steady_world 1767231000000 cached_state short_timer]
  note t4 = polling_interval_by_effect_run
      [OF tok, of online_world 1767231000000 cached_state short_timer]
  have f1: "future_instant (date_parse online_world) 1767227400000
              (lightRulesPausedUntil cached_state)"
    by (simp add: future_instant_def loop_example_defs)
  have f2: "absent_or_past (date_parse online_world) 1767227400000
              (lightRulesPausedUntil initial_state)"
    "absent_or_past (date_parse online_world) 1767227400000
              (pumpRulesPausedUntil initial_state)"
    by (simp_all add: absent_or_past_def loop_example_defs)
  have e1: "snd (polling_effect online_world 1767227400000 (Some ''token'') cached_state)
       = Some \<lparr>intervalMs = 5000, paused_at_setup = True\<rparr>"
    using t1 f1 by (auto simp: Let_def)
  have e2: "snd (polling_effect online_world 1767227400000 (Some ''token'') initial_state)
       = Some \<lparr>intervalMs = 30000, paused_at_setup = False\<rparr>"
    using t2 f2 by (auto simp: Let_def)
  have n3: "\<not> pause_fields_changed cached_state
              (polling_tick steady_world short_timer cached_state)"
    by (simp add: pause_fields_changed_def polling_tick_def Let_def short_timer_def
          steady_tick_fields)
       (simp add: cached_state_def)
  have e3: "snd (reconcile_tick steady_world 1767231000000 (Some ''token'') short_timer
              cached_state) = Some short_timer"
    using t3 n3 by simp
  have s4: "lightRulesPausedUntil (polling_tick online_world short_timer cached_state) = None"
    "pumpRulesPausedUntil (polling_tick online_world short_timer cached_state) = None"
    by (simp_all add: polling_tick_def Let_def short_timer_def fetchRules_def
          online_world_def)
  have n4: "pause_fields_changed cached_state
              (polling_tick online_world short_timer cached_state)"
    by (simp add: pause_fields_changed_def s4) (simp add: cached_state_def)
  have e4: "snd (reconcile_tick online_world 1767231000000 (Some ''token'') short_timer
              cached_state) = Some \<lparr>intervalMs = 30000, paused_at_setup = False\<rparr>"
  proof -
    have "reconcile_tick online_world 1767231000000 (Some ''token'') short_timer cached_state
        = polling_effect online_world 1767231000000 (Some ''token'')
            (polling_tick online_world short_timer cached_state)"
      using t4 n4 by simp
    then show ?thesis
      by (simp add: polling_effect_def polling_timer_def isPausedInFuture_def s4)
  qed
  have c4: "new_calls cached_state (polling_tick online_world short_timer cached_state)
       = fetchAll_calls @ [GetRules]"
    using t4 by (simp add: short_timer_def)
  show ?thesis
    using f1 f2 e1 e2 n3 e3 n4 e4 c4 by simp
qed

section \<open>Properties of the Override Workflow and the Resume Gate\<close>

lemmas step_defs = issue_def ok_def and_then_def catch_setError_def

lemmas handler_defs = handleLightOn_def handleLightOff_def handleLightBrightness_def
  handlePumpOn_def handlePumpOff_def

lemma fetchAll_light_field:
  "fetchAll w (s\<lparr>lightRulesPausedUntil := x\<rparr>) = (fetchAll w s)\<lparr>lightRulesPausedUntil := x\<rparr>"
  by (cases s) (simp add: fetchAll_def Let_def cong: option.case_cong)

lemma fetchAll_pump_field:
  "fetchAll w (s\<lparr>pumpRulesPausedUntil := x\<rparr>) = (fetchAll w s)\<lparr>pumpRulesPausedUntil := x\<rparr>"
  by (cases s) (simp add: fetchAll_def Let_def cong: option.case_cong)

lemma run_action_light_field:
  "run_action w a (s\<lparr>lightRulesPausedUntil := x\<rparr>) = (run_action w a s)\<lparr>lightRulesPausedUntil := x\<rparr>"
  by (cases s; cases a)
     (simp_all add: handler_defs step_defs Let_def fetchAll_def split: option.splits
        cong: option.case_cong)

lemma run_action_pump_field:
  "run_action w a (s\<lparr>pumpRulesPausedUntil := x\<rparr>) = (run_action w a s)\<lparr>pumpRulesPausedUntil := x\<rparr>"
  by (cases s; cases a)
     (simp_all add: handler_defs step_defs Let_def fetchAll_def split: option.splits
        cong: option.case_cong)

lemma fetchAll_gate_fields:
  "resumeModal (fetchAll w s) = resumeModal s"
  "pendingResumeActionRef (fetchAll w s) = pendingResumeActionRef s"
  by (simp_all add: fetchAll_def Let_def)

lemma run_action_gate_fields:
  "resumeModal (run_action w a s) = resumeModal s
   \<and> pendingResumeActionRef (run_action w a s) = pendingResumeActionRef s"
  by (cases a)
     (simp_all add: handler_defs step_defs Let_def fetchAll_gate_fields split: option.splits)

lemma past_not_paused:
  "parse p = Some t \<Longrightarrow> t \<le> now \<Longrightarrow> \<not> isPausedInFuture parse now (Some p)"
  by (simp add: isPausedInFuture_def)

lemma absent_not_paused: "\<not> isPausedInFuture parse now None"
  by (simp add: isPausedInFuture_def)

text \<open>
  Claim C5. Let a pause field hold an instant strictly before the clock reading of the
  gate. Then the gate of that actuator behaves as with an absent field: the manual action
  runs at once, the resume dialog and the pending cell stay as they were, and the
  resulting state is the one reached from the absent field, except for the field itself.
  This holds for the light gate and for the pump gate.
\<close>

theorem expired_pause_is_no_pause:
  assumes "date_parse w p = Some t" and "t < epoch_ms w (length (trace s))"
  shows "runOrShowResumeLight w a (s\<lparr>lightRulesPausedUntil := Some p\<rparr>)
           = (runOrShowResumeLight w a (s\<lparr>lightRulesPausedUntil := None\<rparr>))
               \<lparr>lightRulesPausedUntil := Some p\<rparr>
         \<and> runOrShowResumeLight w a (s\<lparr>lightRulesPausedUntil := Some p\<rparr>)
           = run_action w a (s\<lparr>lightRulesPausedUntil := Some p\<rparr>)
         \<and> resumeModal (runOrShowResumeLight w a (s\<lparr>lightRulesPausedUntil := Some p\<rparr>))
           = resumeModal s
         \<and> pendingResumeActionRef (runOrShowResumeLight w a (s\<lparr>lightRulesPausedUntil := Some p\<rparr>))
           = pendingResumeActionRef s
         \<and> runOrShowResumePump w a (s\<lparr>pumpRulesPausedUntil := Some p\<rparr>)
           = (runOrShowResumePump w a (s\<lparr>pumpRulesPausedUntil := None\<rparr>))
               \<lparr>pumpRulesPausedUntil := Some p\<rparr>
         \<and> runOrShowResumePump w a (s\<lparr>pumpRulesPausedUntil := Some p\<rparr>)
           = run_action w a (s\<lparr>pumpRulesPausedUntil := Some p\<rparr>)
         \<and> resumeModal (runOrShowResumePump w a (s\<lparr>pumpRulesPausedUntil := Some p\<rparr>))
           = resumeModal s
         \<and> pendingResumeActionRef (runOrShowResumePump w a (s\<lparr>pumpRulesPausedUntil := Some p\<rparr>))
           = pendingResumeActionRef s"
proof -
  from assms have np: "\<not> isPausedInFuture (date_parse w) (epoch_ms w (length (trace s))) (Some p)"
    by (simp add: past_not_paused)
  have l: "runOrShowResumeLight w a (s\<lparr>lightRulesPausedUntil := Some p\<rparr>)
           = run_action w a (s\<lparr>lightRulesPausedUntil := Some p\<rparr>)"
    using np by (simp add: runOrShowResumeLight_def)
  have l0: "runOrShowResumeLight w a (s\<lparr>lightRulesPausedUntil := None\<rparr>)
           = run_action w a (s\<lparr>lightRulesPausedUntil := None\<rparr>)"
    by (simp add: runOrShowResumeLight_def absent_not_paused)
  have q: "runOrShowResumePump w a (s\<lparr>pumpRulesPausedUntil := Some p\<rparr>)
           = run_action w a (s\<lparr>pumpRulesPausedUntil := Some p\<rparr>)"
    using np by (simp add: runOrShowResumePump_def)
  have q0: "runOrShowResumePump w a (s\<lparr>pumpRulesPausedUntil := None\<rparr>)
           = run_action w a (s\<lparr>pumpRulesPausedUntil := None\<rparr>)"
    by (simp add: runOrShowResumePump_def absent_not_paused)
  show ?thesis
    unfolding l l0 q q0
    by (simp add: run_action_light_field run_action_pump_field run_action_gate_fields)
qed

text \<open>
  The pump pause of midnight is behind the clock: switching the pump off runs at once and
  no dialog opens.
\<close>

theorem expired_pause_is_no_pause_witness:
  "date_parse online_world ''2026-01-01T00:00:00Z'' = Some 1767225600000
   \<and> 1767225600000 < epoch_ms online_world (length (trace cached_state))
   \<and> new_calls cached_state
        (runOrShowResumePump online_world HandlePumpOff
           (cached_state\<lparr>pumpRulesPausedUntil := Some ''2026-01-01T00:00:00Z''\<rparr>))
      = PumpOff # fetchAll_calls
   \<and> rm_open (resumeModal (runOrShowResumePump online_world HandlePumpOff
           (cached_state\<lparr>pumpRulesPausedUntil := Some ''2026-01-01T00:00:00Z''\<rparr>))) = False"
proof -
  have p: "date_parse online_world ''2026-01-01T00:00:00Z'' = Some 1767225600000"
    by (simp add: example_defs)
  have q: "1767225600000 < epoch_ms online_world (length (trace cached_state))"
    by (simp add: example_defs)
  have r: "new_calls cached_state (run_action online_world HandlePumpOff
             (cached_state\<lparr>pumpRulesPausedUntil := Some ''2026-01-01T00:00:00Z''\<rparr>))
           = PumpOff # fetchAll_calls"
    by (simp add: handlePumpOff_def step_defs new_calls_def fetchAll_trace online_world_def)
  have m: "rm_open (resumeModal cached_state) = False"
    by (simp add: example_defs)
  note t = expired_pause_is_no_pause [OF p q, of HandlePumpOff]
  have e: "runOrShowResumePump online_world HandlePumpOff
             (cached_state\<lparr>pumpRulesPausedUntil := Some ''2026-01-01T00:00:00Z''\<rparr>)
           = run_action online_world HandlePumpOff
               (cached_state\<lparr>pumpRulesPausedUntil := Some ''2026-01-01T00:00:00Z''\<rparr>)"
    using t by (elim conjE)
  have f: "resumeModal (runOrShowResumePump online_world HandlePumpOff
             (cached_state\<lparr>pumpRulesPausedUntil := Some ''2026-01-01T00:00:00Z''\<rparr>))
           = resumeModal cached_state"
    using t by (elim conjE)
  show ?thesis
    unfolding f unfolding e using p q r m by simp
qed

text \<open>
  Claim C10. The pending action lives in one cell shared by both actuators. A manual
  action attempted while the pause of its actuator is ahead of the clock is stored in the
  cell and not run, whatever the cell held; an attempt on one actuator, its pause ahead
  of the clock, replaces the pending action captured just before for the other.
\<close>

theorem single_pending_cell:
  "(isPausedInFuture (date_parse w) (epoch_ms w (length (trace s))) (lightRulesPausedUntil s) \<longrightarrow>
      pendingResumeActionRef (runOrShowResumeLight w a s) = Some a
      \<and> rm_type (resumeModal (runOrShowResumeLight w a s)) = Light
      \<and> trace (runOrShowResumeLight w a s) = trace s)
   \<and> (isPausedInFuture (date_parse w) (epoch_ms w (length (trace s))) (pumpRulesPausedUntil s) \<longrightarrow>
      pendingResumeActionRef (runOrShowResumePump w a s) = Some a
      \<and> rm_type (resumeModal (runOrShowResumePump w a s)) = Pump
      \<and> trace (runOrShowResumePump w a s) = trace s)
   \<and> (isPausedInFuture (date_parse u) (epoch_ms u (length (trace s))) (pumpRulesPausedUntil s)
       \<and> isPausedInFuture (date_parse v) (epoch_ms v (length (trace s))) (lightRulesPausedUntil s) \<longrightarrow>
      pendingResumeActionRef (runOrShowResumeLight v a (runOrShowResumePump u b s)) = Some a)
   \<and> (isPausedInFuture (date_parse u) (epoch_ms u (length (trace s))) (lightRulesPausedUntil s)
       \<and> isPausedInFuture (date_parse v) (epoch_ms v (length (trace s))) (pumpRulesPausedUntil s) \<longrightarrow>
      pendingResumeActionRef (runOrShowResumePump v b (runOrShowResumeLight u a s)) = Some b)"
  by (simp add: runOrShowResumeLight_def runOrShowResumePump_def)

text \<open>Both pauses ahead of the clock: the light action replaces the pending pump action.\<close>

theorem single_pending_cell_witness:
  "isPausedInFuture (date_parse online_world)
     (epoch_ms online_world (length (trace both_paused_state)))
     (lightRulesPausedUntil both_paused_state)
   \<and> isPausedInFuture (date_parse online_world)
     (epoch_ms online_world (length (trace both_paused_state)))
     (pumpRulesPausedUntil both_paused_state)
   \<and> pendingResumeActionRef
        (runOrShowResumeLight online_world (HandleLightBrightness 30)
           (runOrShowResumePump online_world HandlePumpOff both_paused_state))
      = Some (HandleLightBrightness 30)"
proof -
  have l: "isPausedInFuture (date_parse online_world)
     (epoch_ms online_world (length (trace both_paused_state)))
     (lightRulesPausedUntil both_paused_state)"
    by (simp add: example_defs isPausedInFuture_def)
  have p: "isPausedInFuture (date_parse online_world)
     (epoch_ms online_world (length (trace both_paused_state)))
     (pumpRulesPausedUntil both_paused_state)"
    by (simp add: example_defs isPausedInFuture_def)
  show ?thesis
    using l p single_pending_cell [where s = both_paused_state and u = online_world
        and v = online_world and a = "HandleLightBrightness 30" and b = HandlePumpOff]
    by simp
qed

lemma confirmLightOverride_calls:
  "new_calls s (confirmLightOverride w s) =
     (let n = length (trace s);
          m = light_override_minutes (lo_minutes (lightOverrideModal s));
          act = (if lo_action (lightOverrideModal s) = On then LightOn else LightOff)
      in if command_result w n (PauseLightRulesForMinutes m) \<noteq> None
         then [PauseLightRulesForMinutes m]
         else if command_result w (n + 2) act \<noteq> None
         then [PauseLightRulesForMinutes m, GetRules, act]
         else [PauseLightRulesForMinutes m, GetRules, act] @ fetchAll_calls)"
  by (auto simp: confirmLightOverride_def step_defs Let_def new_calls_def fetchAll_trace
        fetchRules_trace eval_nat_numeral split: option.splits)

lemma confirmPumpManual_calls:
  "new_calls s (confirmPumpManual w s) =
     (let n = length (trace s);
          m = pump_manual_minutes (pm_minutes (pumpManualModal s))
      in if command_result w n (PausePumpRulesForMinutes m) \<noteq> None
         then [PausePumpRulesForMinutes m]
         else if command_result w (n + 1) (SetManualPumpOffInMinutes m) \<noteq> None
         then [PausePumpRulesForMinutes m, SetManualPumpOffInMinutes m]
         else if command_result w (n + 3) (SetPumpSpeed 100) \<noteq> None
         then [PausePumpRulesForMinutes m, SetManualPumpOffInMinutes m, GetRules, SetPumpSpeed 100]
         else if command_result w (n + 4) PumpOn \<noteq> None
         then [PausePumpRulesForMinutes m, SetManualPumpOffInMinutes m, GetRules,
               SetPumpSpeed 100, PumpOn]
         else [PausePumpRulesForMinutes m, SetManualPumpOffInMinutes m, GetRules,
               SetPumpSpeed 100, PumpOn] @ fetchAll_calls)"
  by (auto simp: confirmPumpManual_def step_defs Let_def new_calls_def fetchAll_trace
        fetchRules_trace eval_nat_numeral split: option.splits)

lemma confirmLightOverride_trace:
  "trace (confirmLightOverride w s) = trace s @ new_calls s (confirmLightOverride w s)"
  by (auto simp: confirmLightOverride_def step_defs Let_def new_calls_def fetchAll_trace
        fetchRules_trace split: option.splits)

lemma confirmPumpManual_trace:
  "trace (confirmPumpManual w s) = trace s @ new_calls s (confirmPumpManual w s)"
  by (auto simp: confirmPumpManual_def step_defs Let_def new_calls_def fetchAll_trace
        fetchRules_trace split: option.splits)

text \<open>
  Claim C3. A confirmed light override only appends requests to the trace, and the
  requests it issues are an initial part of: pause the light rules, fetch the rules, the
  light action, refresh the readings. They are all of these when the pause and the action
  succeed, and the light action is issued only when the pause request has resolved.
  Manual watering likewise issues an initial part of: pause the pump rules, schedule the
  auto-off (both for the chosen minutes), fetch the rules, set the pump speed to 100,
  turn the pump on, refresh the readings; all of these when the four commands succeed;
  and the pump is turned on only when the pause, the auto-off and the speed requests have
  resolved.
\<close>

theorem override_call_order:
  "(let n = length (trace s);
        m = light_override_minutes (lo_minutes (lightOverrideModal s));
        act = (if lo_action (lightOverrideModal s) = On then LightOn else LightOff);
        cs = new_calls s (confirmLightOverride w s)
    in trace (confirmLightOverride w s) = trace s @ cs
       \<and> prefix cs (light_override_sequence m (lo_action (lightOverrideModal s)))
       \<and> (command_result w n (PauseLightRulesForMinutes m) = None
            \<and> command_result w (n + 2) act = None
          \<longrightarrow> cs = light_override_sequence m (lo_action (lightOverrideModal s)))
       \<and> (act \<in> set cs \<longrightarrow> command_result w n (PauseLightRulesForMinutes m) = None))
   \<and> (let n = length (trace s);
          m = pump_manual_minutes (pm_minutes (pumpManualModal s));
          cs = new_calls s (confirmPumpManual w s)
      in trace (confirmPumpManual w s) = trace s @ cs
         \<and> prefix cs (pump_manual_sequence m)
         \<and> (command_result w n (PausePumpRulesForMinutes m) = None
              \<and> command_result w (n + 1) (SetManualPumpOffInMinutes m) = None
              \<and> command_result w (n + 3) (SetPumpSpeed 100) = None
              \<and> command_result w (n + 4) PumpOn = None
            \<longrightarrow> cs = pump_manual_sequence m)
         \<and> (PumpOn \<in> set cs \<longrightarrow>
               command_result w n (PausePumpRulesForMinutes m) = None
               \<and> command_result w (n + 1) (SetManualPumpOffInMinutes m) = None
               \<and> command_result w (n + 3) (SetPumpSpeed 100) = None))"
proof -
  show ?thesis
    unfolding Let_def
    apply (intro conjI)
    subgoal by (rule confirmLightOverride_trace)
    subgoal by (simp add: confirmLightOverride_calls light_override_sequence_def Let_def)
    subgoal by (simp add: confirmLightOverride_calls light_override_sequence_def Let_def)
    subgoal by (auto simp: confirmLightOverride_calls Let_def split: if_splits)
    subgoal by (rule confirmPumpManual_trace)
    subgoal by (simp add: confirmPumpManual_calls pump_manual_sequence_def Let_def)
    subgoal by (simp add: confirmPumpManual_calls pump_manual_sequence_def Let_def)
    subgoal by (auto simp: confirmPumpManual_calls Let_def fetchAll_calls_def split: if_splits)
    done
qed

text \<open>
  A light override of 90 minutes and a watering of 10 minutes against the answering
  device, and the light override against the unreachable device.
\<close>

theorem override_call_order_witness:
  "command_result online_world (length (trace override_state)) (PauseLightRulesForMinutes 90) = None
   \<and> command_result online_world (length (trace override_state) + 2) LightOff = None
   \<and> command_result offline_world (length (trace override_state)) (PauseLightRulesForMinutes 90)
       \<noteq> None
   \<and> new_calls override_state (confirmLightOverride online_world override_state)
     = [PauseLightRulesForMinutes 90, GetRules, LightOff] @ fetchAll_calls
   \<and> new_calls override_state (confirmPumpManual online_world override_state)
     = [PausePumpRulesForMinutes 10, SetManualPumpOffInMinutes 10, GetRules,
        SetPumpSpeed 100, PumpOn] @ fetchAll_calls
   \<and> new_calls override_state (confirmLightOverride offline_world override_state)
     = [PauseLightRulesForMinutes 90]"
proof -
  have m: "light_override_minutes (lo_minutes (lightOverrideModal override_state)) = 90"
    "pump_manual_minutes (pm_minutes (pumpManualModal override_state)) = 10"
    "lo_action (lightOverrideModal override_state) = Off"
    by (simp_all add: example_defs light_override_minutes_def pump_manual_minutes_def parse_eval)
  have c: "command_result online_world n c = None" for n c
    by (simp add: online_world_def)
  have d: "command_result offline_world n c \<noteq> None" for n c
    by (simp add: offline_world_def)
  have off: "new_calls override_state (confirmLightOverride offline_world override_state)
     = [PauseLightRulesForMinutes 90]"
    by (simp add: confirmLightOverride_calls m d)
  show ?thesis
    using override_call_order [of override_state online_world] off
    by (simp add: Let_def m c d light_override_sequence_def pump_manual_sequence_def)
qed

lemma run_action_calls:
  "trace (run_action w a s) = trace s @ new_calls s (run_action w a s)
   \<and> ResumeLightRules \<notin> set (new_calls s (run_action w a s))
   \<and> ResumePumpRules \<notin> set (new_calls s (run_action w a s))"
  by (cases a)
     (auto simp: handler_defs step_defs Let_def new_calls_def fetchAll_trace fetchAll_calls_def
        split: option.splits)

lemma fetchRules_pending:
  "pendingResumeActionRef (fetchRules w s) = pendingResumeActionRef s"
  by (simp add: fetchRules_def Let_def split: sum.splits)

lemma new_calls_append:
  "trace s1 = trace s @ xs \<Longrightarrow> trace s2 = trace s1 @ ys \<Longrightarrow> new_calls s s2 = xs @ ys"
  by (simp add: new_calls_def)

lemma run_action_no_resume:
  "ResumeLightRules \<notin> set (new_calls s (run_action w a s))
   \<and> ResumePumpRules \<notin> set (new_calls s (run_action w a s))"
  using run_action_calls [of w a s] by blast

lemma run_action_trace:
  "trace (run_action w a s) = trace s @ new_calls s (run_action w a s)"
  using run_action_calls [of w a s] by blast

text \<open>
  Claim C4. Let the gate hold a pending action. Keep-paused runs the pending action from
  the state with the dialog closed and the cell cleared, and issues no resume request.
  The resume request is \<open>ResumeLightRules\<close> for a light dialog and \<open>ResumePumpRules\<close>
  for a pump dialog. Resume, when the resume request resolves, issues the resume request,
  fetches the rules and then runs the pending action. When the resume request fails, the error message is
  set, the resume request is the only request issued and the pending action does not run.
  Closing the dialog clears the cell and issues no request.
\<close>

theorem resume_gate_resolutions:
  assumes "pendingResumeActionRef s = Some a"
  shows "(let s0 = s\<lparr>resumeModal := (resumeModal s)\<lparr>rm_open := False\<rparr>\<rparr>;
              rc = (case rm_type (resumeModal s) of
                      Light \<Rightarrow> ResumeLightRules | Pump \<Rightarrow> ResumePumpRules);
              n = length (trace s)
          in confirmResumeModal w False s = run_action w a (s0\<lparr>pendingResumeActionRef := None\<rparr>)
             \<and> ResumeLightRules \<notin> set (new_calls s (confirmResumeModal w False s))
             \<and> ResumePumpRules \<notin> set (new_calls s (confirmResumeModal w False s))
             \<and> (command_result w n rc = None \<longrightarrow>
                  confirmResumeModal w True s
                    = run_action w a
                        ((fetchRules w (s0\<lparr>trace := trace s @ [rc]\<rparr>))\<lparr>pendingResumeActionRef := None\<rparr>)
                  \<and> take 2 (new_calls s (confirmResumeModal w True s)) = [rc, GetRules])
             \<and> (\<forall>e. command_result w n rc = Some e \<longrightarrow>
                  confirmResumeModal w True s
                    = s0\<lparr>trace := trace s @ [rc],
                         error := Some (err_message e ''Failed to resume rules'')\<rparr>
                  \<and> new_calls s (confirmResumeModal w True s) = [rc])
             \<and> closeResumeModal s = s0\<lparr>pendingResumeActionRef := None\<rparr>
             \<and> new_calls s (closeResumeModal s) = [])"
proof -
  let ?s0 = "s\<lparr>resumeModal := (resumeModal s)\<lparr>rm_open := False\<rparr>\<rparr>"
  let ?rc = "case rm_type (resumeModal s) of
               Light \<Rightarrow> ResumeLightRules | Pump \<Rightarrow> ResumePumpRules"
  let ?k = "?s0\<lparr>pendingResumeActionRef := None\<rparr>"
  let ?s3 = "(fetchRules w (?s0\<lparr>trace := trace s @ [?rc]\<rparr>))\<lparr>pendingResumeActionRef := None\<rparr>"
  have rc: "(if rm_type (resumeModal s) = Light then ResumeLightRules else ResumePumpRules)
            = ?rc"
    by (cases "rm_type (resumeModal s)") simp_all
  have keep: "confirmResumeModal w False s = run_action w a ?k"
    using assms by (simp add: confirmResumeModal_def runPending_def Let_def)
  have keep_calls: "new_calls s (confirmResumeModal w False s) = new_calls ?k (run_action w a ?k)"
    by (simp add: keep new_calls_def)
  have keep_no_resume:
    "ResumeLightRules \<notin> set (new_calls s (confirmResumeModal w False s))"
    "ResumePumpRules \<notin> set (new_calls s (confirmResumeModal w False s))"
    unfolding keep_calls using run_action_no_resume [of ?k w a] by blast+
  have ok_case: "confirmResumeModal w True s = run_action w a ?s3"
    if "command_result w (length (trace s)) ?rc = None"
    using that assms
    by (simp add: confirmResumeModal_def runPending_def Let_def step_defs fetchRules_pending rc)
  have ok_calls: "take 2 (new_calls s (confirmResumeModal w True s)) = [?rc, GetRules]"
    if h: "command_result w (length (trace s)) ?rc = None"
  proof -
    have t3: "trace ?s3 = trace s @ [?rc, GetRules]"
      by (simp add: fetchRules_trace)
    have "new_calls s (run_action w a ?s3) = [?rc, GetRules] @ new_calls ?s3 (run_action w a ?s3)"
      using t3 run_action_trace [of w a ?s3] by (rule new_calls_append)
    then show ?thesis
      unfolding ok_case [OF h] by simp
  qed
  have fail_case: "confirmResumeModal w True s
       = ?s0\<lparr>trace := trace s @ [?rc], error := Some (err_message e ''Failed to resume rules'')\<rparr>"
    if "command_result w (length (trace s)) ?rc = Some e" for e
    using that
    by (simp add: confirmResumeModal_def Let_def step_defs rc)
  have fail_calls: "new_calls s (confirmResumeModal w True s) = [?rc]"
    if "command_result w (length (trace s)) ?rc = Some e" for e
    unfolding fail_case [OF that] by (simp add: new_calls_def)
  have close: "closeResumeModal s = ?k"
    by (simp add: closeResumeModal_def)
  have close_calls: "new_calls s (closeResumeModal s) = []"
    by (simp add: closeResumeModal_def new_calls_def)
  show ?thesis
    unfolding Let_def
  proof (intro conjI impI allI)
    show "confirmResumeModal w False s = run_action w a ?k" by (rule keep)
    show "ResumeLightRules \<notin> set (new_calls s (confirmResumeModal w False s))"
      by (rule keep_no_resume)
    show "ResumePumpRules \<notin> set (new_calls s (confirmResumeModal w False s))"
      by (rule keep_no_resume)
    show "closeResumeModal s = ?k" by (rule close)
    show "new_calls s (closeResumeModal s) = []" by (rule close_calls)
  next
    assume h: "command_result w (length (trace s)) ?rc = None"
    show "confirmResumeModal w True s = run_action w a ?s3" by (rule ok_case [OF h])
    show "take 2 (new_calls s (confirmResumeModal w True s)) = [?rc, GetRules]"
      by (rule ok_calls [OF h])
  next
    fix e assume h: "command_result w (length (trace s)) ?rc = Some e"
    show "confirmResumeModal w True s
       = ?s0\<lparr>trace := trace s @ [?rc], error := Some (err_message e ''Failed to resume rules'')\<rparr>"
      by (rule fail_case [OF h])
    show "new_calls s (confirmResumeModal w True s) = [?rc]" by (rule fail_calls [OF h])
  qed
qed

text \<open>
  A pending "pump off" behind the pump dialog and a pending brightness of 30 behind the
  light dialog: kept paused, resumed on the answering device, resumed on the unreachable
  device, and dismissed.
\<close>

theorem resume_gate_resolutions_witness:
  "gate_state = runOrShowResumePump online_world HandlePumpOff both_paused_state
   \<and> pendingResumeActionRef gate_state = Some HandlePumpOff
   \<and> command_result online_world (length (trace gate_state)) ResumePumpRules = None
   \<and> command_result offline_world (length (trace gate_state)) ResumePumpRules
       = Some (ErrorObj ''Failed to fetch'')
   \<and> new_calls gate_state (confirmResumeModal online_world False gate_state)
       = PumpOff # fetchAll_calls
   \<and> new_calls gate_state (confirmResumeModal online_world True gate_state)
       = ResumePumpRules # GetRules # PumpOff # fetchAll_calls
   \<and> new_calls gate_state (confirmResumeModal offline_world True gate_state) = [ResumePumpRules]
   \<and> error (confirmResumeModal offline_world True gate_state) = Some ''Failed to fetch''
   \<and> new_calls gate_state (closeResumeModal gate_state) = []
   \<and> pendingResumeActionRef (closeResumeModal gate_state) = None
   \<and> light_gate_state
       = runOrShowResumeLight online_world (HandleLightBrightness 30) both_paused_state
   \<and> pendingResumeActionRef light_gate_state = Some (HandleLightBrightness 30)
   \<and> command_result online_world (length (trace light_gate_state)) ResumeLightRules = None
   \<and> new_calls light_gate_state (confirmResumeModal online_world False light_gate_state)
       = SetLightBrightness 30 # fetchAll_calls
   \<and> new_calls light_gate_state (confirmResumeModal online_world True light_gate_state)
       = ResumeLightRules # GetRules # SetLightBrightness 30 # fetchAll_calls
   \<and> new_calls light_gate_state (confirmResumeModal offline_world True light_gate_state)
       = [ResumeLightRules]
   \<and> error (confirmResumeModal offline_world True light_gate_state) = Some ''Failed to fetch''"
proof -
  have h: "pendingResumeActionRef gate_state = Some HandlePumpOff"
    by (simp add: gate_state_def)
  have hl: "pendingResumeActionRef light_gate_state = Some (HandleLightBrightness 30)"
    by (simp add: light_gate_state_def)
  have ty: "rm_type (resumeModal gate_state) = Pump"
    "rm_type (resumeModal light_gate_state) = Light"
    by (simp_all add: gate_state_def light_gate_state_def)
  have c: "command_result online_world n c = None" for n c
    by (simp add: online_world_def)
  have d: "command_result offline_world n c = Some (ErrorObj ''Failed to fetch'')" for n c
    by (simp add: offline_world_def)
  have r: "gate_state = runOrShowResumePump online_world HandlePumpOff both_paused_state"
    by (simp add: runOrShowResumePump_def isPausedInFuture_def example_defs)
  have rl: "light_gate_state
       = runOrShowResumeLight online_world (HandleLightBrightness 30) both_paused_state"
    by (simp add: runOrShowResumeLight_def isPausedInFuture_def example_defs
          light_gate_state_def)
  have pump: "new_calls gate_state (confirmResumeModal online_world False gate_state)
       = PumpOff # fetchAll_calls
     \<and> new_calls gate_state (confirmResumeModal online_world True gate_state)
       = ResumePumpRules # GetRules # PumpOff # fetchAll_calls
     \<and> new_calls gate_state (confirmResumeModal offline_world True gate_state) = [ResumePumpRules]
     \<and> error (confirmResumeModal offline_world True gate_state) = Some ''Failed to fetch''
     \<and> new_calls gate_state (closeResumeModal gate_state) = []
     \<and> pendingResumeActionRef (closeResumeModal gate_state) = None"
    using resume_gate_resolutions [OF h, of online_world]
      resume_gate_resolutions [OF h, of offline_world]
    by (simp add: Let_def ty c d handlePumpOff_def step_defs new_calls_def fetchAll_trace
          fetchRules_trace)
  have light: "new_calls light_gate_state (confirmResumeModal online_world False light_gate_state)
       = SetLightBrightness 30 # fetchAll_calls
     \<and> new_calls light_gate_state (confirmResumeModal online_world True light_gate_state)
       = ResumeLightRules # GetRules # SetLightBrightness 30 # fetchAll_calls
     \<and> new_calls light_gate_state (confirmResumeModal offline_world True light_gate_state)
       = [ResumeLightRules]
     \<and> error (confirmResumeModal offline_world True light_gate_state) = Some ''Failed to fetch''"
    using resume_gate_resolutions [OF hl, of online_world]
      resume_gate_resolutions [OF hl, of offline_world]
    by (simp add: Let_def ty c d handleLightBrightness_def step_defs new_calls_def
          fetchAll_trace fetchRules_trace)
  show ?thesis
    using h hl r rl pump light by (simp add: c d)
qed

end
